theory Spec2Isabelle
  imports Complex_Main "HOL-Library.AList"
begin

section \<open>Active Domain Randomization: the SVPG adapter and the reward generator\<close>

text \<open>
  A shallow embedding of \<^verbatim>\<open>Pyrado/pyrado/algorithms/meta/adr.py\<close>: the class
  \<^verbatim>\<open>SVPGAdapter\<close> (constructor, \<^verbatim>\<open>reset\<close>, \<^verbatim>\<open>step\<close>, \<^verbatim>\<open>eval_states\<close> and the
  conversions between parameter lists and dictionaries), \<^verbatim>\<open>RewardGenerator.train\<close> and
  \<^verbatim>\<open>preprocess_rollout\<close>.

  Conventions of the embedding.
  \<^item> An entry of a NumPy array, and any other float the adapter computes with, is a
    real number or NaN (\<open>float64\<close>): NaN is kept because arithmetic and \<^verbatim>\<open>np.clip\<close>
    pass it on. Rounding and the infinities are left out. The per-particle step
    counters, which the source keeps in a float array and only ever sets to zero or
    increments by one, are integers.
  \<^item> A one-dimensional array is a list of such entries, a two-dimensional one a list of
    rows. NumPy's broadcasting between one-dimensional operands is written out, and so
    is the ValueError it raises on shapes that do not fit.
  \<^item> The tensors of a trajectory and the outputs of the discriminator are lists of real
    numbers: of them the code modelled here uses the shape and the order only.
  \<^item> A Python dictionary is an association list in insertion order.
  \<^item> Every exception is a value: an operation returns \<open>Inl e\<close> where the source raises.
    An operation that mutates the adapter returns the adapter as it is when the call
    ends, also when the call ends in an exception.
  \<^item> NumPy's global random generator is an explicit stream of reals that is threaded
    through every operation that draws from it.
\<close>

subsection \<open>Exceptions and arrays\<close>

datatype error =
    NotImplementedError
  | AttributeError
  | AssertionError
  | IndexError
  | KeyError
  | ValueError
  | TypeErr
  | RuntimeError

datatype float64 = Num real | NaN

type_synonym ndarray = "float64 list"

type_synonym dict = "(string \<times> float64) list"

definition nums :: "real list \<Rightarrow> ndarray" where
  "nums xs = map Num xs"



text \<open>Addition and multiplication of floats: NaN in either operand gives NaN.\<close>

fun fadd :: "float64 \<Rightarrow> float64 \<Rightarrow> float64" where
  "fadd (Num x) (Num y) = Num (x + y)"
| "fadd _ _ = NaN"

fun fmul :: "float64 \<Rightarrow> float64 \<Rightarrow> float64" where
  "fmul (Num x) (Num y) = Num (x * y)"
| "fmul _ _ = NaN"

text \<open>\<^verbatim>\<open>xs[i]\<close> on a sequence of \<open>n\<close> entries: negative indices count from the end.\<close>

definition py_index :: "nat \<Rightarrow> int \<Rightarrow> error + nat" where
  "py_index n i =
     (if 0 \<le> i \<and> i < int n then Inr (nat i)
      else if - int n \<le> i \<and> i < 0 then Inr (nat (int n + i))
      else Inl IndexError)"

text \<open>
  \<^verbatim>\<open>np.clip(xs, lo, hi)\<close> with numbers as bounds, which is
  \<^verbatim>\<open>minimum(maximum(xs, lo), hi)\<close>: a NaN entry stays NaN.
\<close>

definition np_clip :: "ndarray \<Rightarrow> real \<Rightarrow> real \<Rightarrow> ndarray" where
  "np_clip xs lo hi = map (\<lambda>x. case x of Num r \<Rightarrow> Num (min (max r lo) hi) | NaN \<Rightarrow> NaN) xs"

text \<open>An elementwise binary operation on two one-dimensional arrays, with broadcasting.\<close>

definition broadcast2 ::
  "(float64 \<Rightarrow> float64 \<Rightarrow> float64) \<Rightarrow> ndarray \<Rightarrow> ndarray \<Rightarrow> error + ndarray" where
  "broadcast2 f xs ys =
     (if length xs = length ys then Inr (map2 f xs ys)
      else if length ys = 1 then Inr (map (\<lambda>x. f x (hd ys)) xs)
      else if length xs = 1 then Inr (map (f (hd xs)) ys)
      else Inl ValueError)"

text \<open>The value stored by \<^verbatim>\<open>row[...] = xs\<close> into a row of \<open>n\<close> entries.\<close>

definition broadcast_to :: "ndarray \<Rightarrow> nat \<Rightarrow> error + ndarray" where
  "broadcast_to xs n =
     (if length xs = n then Inr xs
      else if length xs = 1 then Inr (replicate n (hd xs))
      else Inl ValueError)"

text \<open>\<^verbatim>\<open>np.mean\<close> of a list of floats: NaN for the empty list and for a list with a NaN.\<close>

definition np_mean :: "float64 list \<Rightarrow> float64" where
  "np_mean xs =
     (if xs = [] then NaN
      else case foldr fadd xs (Num 0) of
             Num r \<Rightarrow> Num (r / real (length xs))
           | NaN \<Rightarrow> NaN)"

text \<open>\<^verbatim>\<open>xs[lo:hi]\<close> with Python's clamping of the bounds.\<close>

definition py_slice :: "'a list \<Rightarrow> int \<Rightarrow> int \<Rightarrow> 'a list" where
  "py_slice xs lo hi =
     (let n = int (length xs);
          clamp = (\<lambda>j. if j < 0 then max 0 (j + n) else min j n)
      in take (nat (clamp hi) - nat (clamp lo)) (drop (nat (clamp lo)) xs))"

text \<open>A list comprehension whose body may raise: the first exception ends it.\<close>

fun collect :: "('a \<Rightarrow> error + 'b) \<Rightarrow> 'a list \<Rightarrow> error + 'b list" where
  "collect f [] = Inr []"
| "collect f (x # xs) =
     (case f x of
        Inl e \<Rightarrow> Inl e
      | Inr y \<Rightarrow> (case collect f xs of Inl e \<Rightarrow> Inl e | Inr ys \<Rightarrow> Inr (y # ys)))"

subsection \<open>The random generator\<close>

text \<open>
  \<^verbatim>\<open>np.random.random_sample(n)\<close> takes the next \<open>n\<close> numbers of the stream; NumPy
  documents them to lie in the half-open interval from 0 to 1, which the theorems
  that need it assume of the stream (\<open>unit_stream\<close>).
\<close>

type_synonym rng = "nat \<Rightarrow> real"

definition random_sample :: "nat \<Rightarrow> rng \<Rightarrow> ndarray \<times> rng" where
  "random_sample n g = (map (\<lambda>j. Num (g j)) [0..<n], (\<lambda>k. g (k + n)))"

text \<open>\<^verbatim>\<open>np.random.random_sample((rows, cols))\<close>: the rows are filled one after the other.\<close>

fun random_sample2 :: "nat \<Rightarrow> nat \<Rightarrow> rng \<Rightarrow> ndarray list \<times> rng" where
  "random_sample2 0 cols g = ([], g)"
| "random_sample2 (Suc rows) cols g =
     (case random_sample cols g of
        (r, g') \<Rightarrow> (case random_sample2 rows cols g' of (rs, g'') \<Rightarrow> (r # rs, g'')))"


subsection \<open>Trajectories and \<^verbatim>\<open>preprocess_rollout\<close>\<close>

text \<open>
  Of a \<^verbatim>\<open>StepSequence\<close> the code reads the observations and the actions, each a
  two-dimensional tensor with one row per time step.
\<close>

type_synonym tensor = "real list list"

record step_sequence =
  observations :: tensor
  actions :: tensor

text \<open>The Python values \<^verbatim>\<open>preprocess_rollout\<close> may be called with.\<close>

datatype py_value =
    PyStepSequence step_sequence
  | PyList "real list list"
  | PyNone

text \<open>\<^verbatim>\<open>t.narrow(0, start, n)\<close>: torch raises when the rows asked for are not there.\<close>

definition narrow0 :: "'a list \<Rightarrow> nat \<Rightarrow> nat \<Rightarrow> error + 'a list" where
  "narrow0 t start n =
     (if start + n \<le> length t then Inr (take n (drop start t)) else Inl RuntimeError)"

text \<open>\<^verbatim>\<open>to.cat((s, a), 1)\<close>: both tensors need the same number of rows.\<close>

definition cat1 :: "tensor \<Rightarrow> tensor \<Rightarrow> error + tensor" where
  "cat1 s a = (if length s = length a then Inr (map2 (@) s a) else Inl RuntimeError)"

definition preprocess_rollout :: "py_value \<Rightarrow> error + tensor" where
  "preprocess_rollout rollout =
     (case rollout of
        PyStepSequence ro \<Rightarrow>
          (let state = butlast (observations ro);
               next_state = tl (observations ro)
           in case narrow0 (actions ro) 0 (length next_state) of
                Inl e \<Rightarrow> Inl e
              | Inr action \<Rightarrow> cat1 state action)
      | _ \<Rightarrow> Inl TypeErr)"

subsection \<open>The collaborators of the adapter\<close>

text \<open>
  The wrapped environment, the sampler and the discriminator are parameters of the
  model: the nominal domain parameters of the inner environment, the constructor of
  \<^verbatim>\<open>SamplerPool\<close>, \<^verbatim>\<open>eval_domain_params\<close> for the wrapped environment and the inner
  policy, and the discriminator's \<^verbatim>\<open>get_reward\<close>. Each of the calls may raise.
\<close>

datatype pool = Pool int

record collaborators =
  nominal_domain_param :: dict
  sampler_pool :: "int \<Rightarrow> error + pool"
  eval_domain_params :: "pool \<Rightarrow> dict list \<Rightarrow> error + step_sequence list"
  get_reward :: "step_sequence \<Rightarrow> error + float64"

subsection \<open>The adapter\<close>

text \<open>
  The attributes of an \<^verbatim>\<open>SVPGAdapter\<close>. \<open>parameters\<close> holds the names of the domain
  parameters, in the order given at construction. \<open>pool\<close> is \<open>None\<close> when the
  attribute was never assigned.
\<close>

record adapter =
  parameters :: "string list"
  pool :: "pool option"
  num_particles :: int
  inner_parameter_state :: "ndarray list"
  count :: "int list"
  num_trajs :: int
  svpg_max_step_length :: float64
  max_steps :: int
  horizon :: int
  horizon_count :: int

definition params :: "adapter \<Rightarrow> string list" where
  "params a = parameters a"

definition dict_get :: "dict \<Rightarrow> string \<Rightarrow> error + float64" where
  "dict_get d k = (case map_of d k of None \<Rightarrow> Inl KeyError | Some v \<Rightarrow> Inr v)"

definition nominal :: "collaborators \<Rightarrow> adapter \<Rightarrow> error + float64 list" where
  "nominal E a = collect (dict_get (nominal_domain_param E)) (params a)"

text \<open>
  A dictionary comprehension \<^verbatim>\<open>{k: f(k) for k in ks}\<close>, started from the dictionary
  built so far: a key seen again keeps its place and takes the new value.
\<close>

fun dict_comprehension ::
  "(string \<Rightarrow> error + float64) \<Rightarrow> string list \<Rightarrow> dict \<Rightarrow> error + dict" where
  "dict_comprehension f [] d = Inr d"
| "dict_comprehension f (k # ks) d =
     (case f k of
        Inl e \<Rightarrow> Inl e
      | Inr v \<Rightarrow> dict_comprehension f ks (AList.update k v d))"

definition nominal_dict :: "collaborators \<Rightarrow> adapter \<Rightarrow> error + dict" where
  "nominal_dict E a = dict_comprehension (dict_get (nominal_domain_param E)) (params a) []"

text \<open>\<^verbatim>\<open>{k: a for k, a in zip(self.params(), arr)}\<close>; \<^verbatim>\<open>zip\<close> stops at the shorter list.\<close>

definition array_to_dict :: "adapter \<Rightarrow> float64 list \<Rightarrow> dict" where
  "array_to_dict a arr = fold (\<lambda>(k, v) d. AList.update k v d) (zip (params a) arr) []"

subsection \<open>\<^verbatim>\<open>SVPGAdapter.reset\<close>\<close>

text \<open>
  The two shapes of a call: \<^verbatim>\<open>reset(i, init_state)\<close> with a particle index, where
  \<open>init_state\<close> is a one-dimensional array or absent, and \<^verbatim>\<open>reset(None, init_state)\<close>,
  where it is a whole matrix or absent. The second argument of \<open>reset\<close> is
  \<^verbatim>\<open>domain_param\<close>, which the source asserts to be \<^verbatim>\<open>None\<close>.
\<close>

datatype reset_target =
    Particle int "ndarray option"
  | AllParticles "ndarray list option"

datatype reset_out = Row ndarray | Matrix "ndarray list"

text \<open>\<^verbatim>\<open>self.inner_parameter_state[i] = xs\<close>, returning the row as stored.\<close>

definition set_row :: "int \<Rightarrow> ndarray \<Rightarrow> adapter \<Rightarrow> error + (ndarray \<times> adapter)" where
  "set_row i xs a =
     (case py_index (length (inner_parameter_state a)) i of
        Inl e \<Rightarrow> Inl e
      | Inr k \<Rightarrow>
          (case broadcast_to xs (length (inner_parameter_state a ! k)) of
             Inl e \<Rightarrow> Inl e
           | Inr r \<Rightarrow>
               Inr (r, a\<lparr>inner_parameter_state := (inner_parameter_state a)[k := r]\<rparr>)))"

text \<open>\<^verbatim>\<open>np.zeros(n)\<close> raises on a negative dimension.\<close>

definition np_zeros :: "int \<Rightarrow> error + int list" where
  "np_zeros n = (if n < 0 then Inl ValueError else Inr (replicate (nat n) 0))"

definition reset ::
  "reset_target \<Rightarrow> dict option \<Rightarrow> adapter \<Rightarrow> rng \<Rightarrow> (error + reset_out) \<times> adapter \<times> rng" where
  "reset target domain_param a g =
     (case target of
        Particle i init_state \<Rightarrow>
          (if domain_param \<noteq> None then (Inl AssertionError, a, g)
           else case py_index (length (count a)) i of
             Inl e \<Rightarrow> (Inl e, a, g)
           | Inr c \<Rightarrow>
               (let a1 = a\<lparr>count := (count a)[c := 0]\<rparr>;
                    (xs, g1) = (case init_state of
                                  None \<Rightarrow> random_sample (length (parameters a1)) g
                                | Some s \<Rightarrow> (s, g))
                in case set_row i xs a1 of
                     Inl e \<Rightarrow> (Inl e, a1, g1)
                   | Inr (r, a2) \<Rightarrow> (Inr (Row r), a2, g1)))
      | AllParticles init_state \<Rightarrow>
          (if domain_param \<noteq> None then (Inl AssertionError, a, g)
           else case np_zeros (num_particles a) of
             Inl e \<Rightarrow> (Inl e, a, g)
           | Inr zs \<Rightarrow>
               (let a1 = a\<lparr>count := zs\<rparr>;
                    (m, g1) = (case init_state of
                                 None \<Rightarrow> random_sample2 (nat (num_particles a1))
                                           (length (parameters a1)) g
                               | Some s \<Rightarrow> (s, g))
                in (Inr (Matrix m), a1\<lparr>inner_parameter_state := m\<rparr>, g1))))"

subsection \<open>The constructor\<close>

text \<open>
  \<^verbatim>\<open>SVPGAdapter.__init__\<close>. An AssertionError of \<^verbatim>\<open>SamplerPool(num_workers)\<close> is caught;
  the handler builds a \<^verbatim>\<open>Warning\<close> object and drops it, and assigns nothing to
  \<^verbatim>\<open>self.pool\<close>. Any other exception of the pool's constructor leaves the constructor.
\<close>

definition init ::
  "collaborators \<Rightarrow> string list \<Rightarrow> int \<Rightarrow> float64 \<Rightarrow> int \<Rightarrow> int \<Rightarrow> int \<Rightarrow> int \<Rightarrow> rng
     \<Rightarrow> (error + adapter) \<times> rng" where
  "init E parameters' num_particles' step_length horizon' num_rollouts_per_config
        num_workers max_steps' g =
     (case (case sampler_pool E num_workers of
              Inr p \<Rightarrow> Inr (Some p)
            | Inl AssertionError \<Rightarrow> Inr None
            | Inl e \<Rightarrow> Inl e) of
        Inl e \<Rightarrow> (Inl e, g)
      | Inr pool' \<Rightarrow>
          (case np_zeros num_particles' of
             Inl e \<Rightarrow> (Inl e, g)
           | Inr zs \<Rightarrow>
               (let a = \<lparr>parameters = parameters',
                         pool = pool',
                         num_particles = num_particles',
                         inner_parameter_state =
                           replicate (nat num_particles') (replicate (length parameters') (Num 0)),
                         count = zs,
                         num_trajs = num_rollouts_per_config,
                         svpg_max_step_length = step_length,
                         max_steps = max_steps',
                         horizon = horizon',
                         horizon_count = 0\<rparr>
                in case reset (AllParticles None) None a g of
                     (Inl e, a', g') \<Rightarrow> (Inl e, g')
                   | (Inr r, a', g') \<Rightarrow> (Inr a', g'))))"

subsection \<open>\<^verbatim>\<open>SVPGAdapter.step\<close>\<close>

record step_info =
  rand :: "step_sequence list"
  ref :: "step_sequence list"

text \<open>What \<^verbatim>\<open>step\<close> returns: the particle's vector, the reward, \<open>done\<close> and \<open>info\<close>.\<close>

type_synonym step_out = "ndarray \<times> float64 \<times> bool \<times> step_info"

text \<open>
  The move in parameter space: the action is clipped to the range from -1 to 1 and scaled by the
  maximum step length, added to the particle's row, and the sum, clipped to the range
  from 0 to 1, is stored in the row.
\<close>

definition step_move :: "ndarray \<Rightarrow> int \<Rightarrow> adapter \<Rightarrow> error + adapter" where
  "step_move act i a =
     (let action = map (\<lambda>x. fmul x (svpg_max_step_length a)) (np_clip act (- 1) 1)
      in case py_index (length (inner_parameter_state a)) i of
           Inl e \<Rightarrow> Inl e
         | Inr k \<Rightarrow>
             (case broadcast2 fadd (inner_parameter_state a ! k) action of
                Inl e \<Rightarrow> Inl e
              | Inr s \<Rightarrow>
                  (case set_row i (np_clip s 0 1) a of
                     Inl e \<Rightarrow> Inl e
                   | Inr (r, a') \<Rightarrow> Inr a')))"

text \<open>
  The rollouts and the reward: the row, shifted by one half and multiplied by the nominal
  values, becomes the dictionary of the randomized environments; both batches are
  sampled through the pool and every randomized trajectory is scored. Nothing of the
  adapter changes here.
\<close>

definition step_sample ::
  "collaborators \<Rightarrow> int \<Rightarrow> adapter \<Rightarrow> error + (float64 \<times> step_info)" where
  "step_sample E i a =
     (case py_index (length (inner_parameter_state a)) i of
        Inl e \<Rightarrow> Inl e
      | Inr k \<Rightarrow>
     (let param_norm = map (\<lambda>x. fadd x (Num (1 / 2))) (inner_parameter_state a ! k)
      in case nominal E a of
        Inl e \<Rightarrow> Inl e
      | Inr nom \<Rightarrow>
     (case broadcast2 fmul param_norm nom of
        Inl e \<Rightarrow> Inl e
      | Inr scaled \<Rightarrow>
     (let random_parameters = replicate (nat (num_trajs a)) (array_to_dict a scaled)
      in case nominal_dict E a of
        Inl e \<Rightarrow> Inl e
      | Inr nd \<Rightarrow>
     (let nominal_parameters = replicate (nat (num_trajs a)) nd
      in case pool a of
        None \<Rightarrow> Inl AttributeError
      | Some p \<Rightarrow>
     (case eval_domain_params E p random_parameters of
        Inl e \<Rightarrow> Inl e
      | Inr rand' \<Rightarrow>
     (case eval_domain_params E p nominal_parameters of
        Inl e \<Rightarrow> Inl e
      | Inr ref' \<Rightarrow>
     (case collect (get_reward E) rand' of
        Inl e \<Rightarrow> Inl e
      | Inr rewards \<Rightarrow> Inr (np_mean rewards, \<lparr>rand = rand', ref = ref'\<rparr>)))))))))"

text \<open>
  The step counters: \<open>done\<close> is read from the particle's counter before the counter
  and \<open>horizon_count\<close> go up by one; when the new counter is a multiple of the
  horizon the row is drawn afresh. The source takes the remainder of a float, which for
  a horizon of zero is NaN and never equal to zero.
\<close>

definition step_count ::
  "int \<Rightarrow> adapter \<Rightarrow> rng \<Rightarrow> (error + (ndarray \<times> bool)) \<times> adapter \<times> rng" where
  "step_count i a g =
     (case py_index (length (count a)) i of
        Inl e \<Rightarrow> (Inl e, a, g)
      | Inr c \<Rightarrow>
          (let done = (max_steps a - 1 \<le> count a ! c);
               a1 = a\<lparr>count := (count a)[c := count a ! c + 1],
                      horizon_count := horizon_count a + 1\<rparr>
           in if horizon a1 \<noteq> 0 \<and> (count a1 ! c) mod horizon a1 = 0
              then (case random_sample (length (parameters a1)) g of
                      (xs, g1) \<Rightarrow>
                        (case set_row i xs a1 of
                           Inl e \<Rightarrow> (Inl e, a1, g1)
                         | Inr (r, a2) \<Rightarrow> (Inr (r, done), a2, g1)))
              else (case py_index (length (inner_parameter_state a1)) i of
                      Inl e \<Rightarrow> (Inl e, a1, g)
                    | Inr k \<Rightarrow> (Inr (inner_parameter_state a1 ! k, done), a1, g))))"

definition step ::
  "collaborators \<Rightarrow> ndarray \<Rightarrow> int option \<Rightarrow> adapter \<Rightarrow> rng
     \<Rightarrow> (error + step_out) \<times> adapter \<times> rng" where
  "step E act i a g =
     (case i of
        None \<Rightarrow> (Inl NotImplementedError, a, g)
      | Some j \<Rightarrow>
          (case step_move act j a of
             Inl e \<Rightarrow> (Inl e, a, g)
           | Inr a1 \<Rightarrow>
               (case step_sample E j a1 of
                  Inl e \<Rightarrow> (Inl e, a1, g)
                | Inr (reward, info) \<Rightarrow>
                    (case step_count j a1 g of
                       (Inl e, a2, g2) \<Rightarrow> (Inl e, a2, g2)
                     | (Inr (v, done), a2, g2) \<Rightarrow> (Inr (v, reward, done, info), a2, g2)))))"

text \<open>Successive calls of \<^verbatim>\<open>step\<close> on one particle, one per action, up to the first exception;
  the result lists the \<open>done\<close> flags of the calls.\<close>

fun steps ::
  "collaborators \<Rightarrow> ndarray list \<Rightarrow> int \<Rightarrow> adapter \<Rightarrow> rng
     \<Rightarrow> (error + bool list) \<times> adapter \<times> rng" where
  "steps E [] i a g = (Inr [], a, g)"
| "steps E (act # acts) i a g =
     (case step E act (Some i) a g of
        (Inl e, a1, g1) \<Rightarrow> (Inl e, a1, g1)
      | (Inr (v, reward, done, info), a1, g1) \<Rightarrow>
          (case steps E acts i a1 g1 of
             (Inl e, a2, g2) \<Rightarrow> (Inl e, a2, g2)
           | (Inr ds, a2, g2) \<Rightarrow> (Inr (done # ds), a2, g2)))"

subsection \<open>\<^verbatim>\<open>SVPGAdapter.eval_states\<close>\<close>

definition eval_states ::
  "collaborators \<Rightarrow> ndarray list \<Rightarrow> adapter
     \<Rightarrow> error + (float64 list \<times> step_sequence list \<times> step_sequence list)" where
  "eval_states E states a =
     (case collect
             (\<lambda>state.
                case nominal E a of
                  Inl e \<Rightarrow> Inl e
                | Inr nom \<Rightarrow>
                    (case broadcast2 fmul (map (\<lambda>x. fadd x (Num (1 / 2))) state) nom of
                       Inl e \<Rightarrow> Inl e
                     | Inr scaled \<Rightarrow>
                         Inr (replicate (nat (num_trajs a)) (array_to_dict a scaled))))
             states of
        Inl e \<Rightarrow> Inl e
      | Inr groups \<Rightarrow>
     (let sstates = concat groups
      in case pool a of
        None \<Rightarrow> Inl AttributeError
      | Some p \<Rightarrow>
     (case eval_domain_params E p sstates of
        Inl e \<Rightarrow> Inl e
      | Inr rand' \<Rightarrow>
     (case nominal_dict E a of
        Inl e \<Rightarrow> Inl e
      | Inr nd \<Rightarrow>
     (case eval_domain_params E p
             (replicate (nat (num_trajs a * int (length states))) nd) of
        Inl e \<Rightarrow> Inl e
      | Inr ref' \<Rightarrow>
     (case collect (get_reward E) rand' of
        Inl e \<Rightarrow> Inl e
      | Inr rewards \<Rightarrow>
          Inr (map (\<lambda>i. np_mean (py_slice rewards (int i * num_trajs a)
                                         ((int i + 1) * num_trajs a)))
                   [0..<length states],
               rand', ref')))))))"

subsection \<open>\<^verbatim>\<open>RewardGenerator.train\<close>\<close>

text \<open>
  The network, the loss and the optimizer are parameters: \<open>forward\<close> gives the
  discriminator's output for a feature sequence, one probability per time step,
  \<open>loss_fcn\<close> is the binary cross-entropy of outputs against targets, and
  \<open>optimizer_step\<close> gives the weights after back-propagating the loss of a pair of
  batches and one step of the optimizer.
\<close>

record 'n learner =
  forward :: "'n \<Rightarrow> tensor \<Rightarrow> real list"
  loss_fcn :: "real list \<Rightarrow> real list \<Rightarrow> real"
  optimizer_step :: "'n \<Rightarrow> tensor \<Rightarrow> tensor \<Rightarrow> 'n"

text \<open>
  The state of a \<^verbatim>\<open>RewardGenerator\<close> that \<^verbatim>\<open>train\<close> touches: the weights of the
  discriminator and the logger, which is \<open>None\<close> when no logger is attached and
  otherwise the values added so far, a missing value being Python's \<^verbatim>\<open>None\<close>.
  \<open>optimizer_steps\<close> counts the calls of \<^verbatim>\<open>self.optimizer.step()\<close>.
\<close>

record 'n reward_generator =
  discriminator :: 'n
  optimizer_steps :: nat
  logger :: "(string \<times> real option) list option"

text \<open>
  Modelled from the spec: \<^verbatim>\<open>StepSequence.iterate_rollouts\<close> is not among the sources.
  The spec has the trajectory container "iterate grouped sub-rollouts" and speaks of
  the two "iterators" that \<^verbatim>\<open>train\<close> pairs up; the source names the results
  generators. A concatenated trajectory is the list of its sub-rollouts, and the
  iterator over it is a Python generator: its state is the list of the sub-rollouts it
  has not yielded yet, and a sub-rollout that was yielded is gone.
\<close>

type_synonym rollouts = "step_sequence list"

definition iterate_rollouts :: "rollouts \<Rightarrow> step_sequence list" where
  "iterate_rollouts ros = ros"

text \<open>
  The inner loop of \<^verbatim>\<open>train\<close>, over \<^verbatim>\<open>zip\<close> of the two generators. \<^verbatim>\<open>zip\<close> asks the
  first generator, then the second, and stops when either is exhausted; an element it
  took from the first before finding the second exhausted is dropped. The loop returns
  the last loss and what is left of the two generators.
\<close>

fun train_epoch ::
  "'n learner \<Rightarrow> step_sequence list \<Rightarrow> step_sequence list \<Rightarrow> real option
     \<Rightarrow> 'n reward_generator
     \<Rightarrow> (error + (real option \<times> step_sequence list \<times> step_sequence list))
         \<times> 'n reward_generator" where
  "train_epoch L [] random_gen loss rg = (Inr (loss, [], random_gen), rg)"
| "train_epoch L (r # reference_gen) [] loss rg = (Inr (loss, reference_gen, []), rg)"
| "train_epoch L (r # reference_gen) (x # random_gen) loss rg =
     (case preprocess_rollout (PyStepSequence r) of
        Inl e \<Rightarrow> (Inl e, rg)
      | Inr reference_batch \<Rightarrow>
          (case preprocess_rollout (PyStepSequence x) of
             Inl e \<Rightarrow> (Inl e, rg)
           | Inr random_batch \<Rightarrow>
               (let random_results = forward L (discriminator rg) random_batch;
                    reference_results = forward L (discriminator rg) reference_batch;
                    loss' = loss_fcn L random_results (replicate (length random_results) 1)
                          + loss_fcn L reference_results
                              (replicate (length reference_results) 0);
                    rg' = rg\<lparr>discriminator :=
                                optimizer_step L (discriminator rg) random_batch reference_batch,
                              optimizer_steps := Suc (optimizer_steps rg)\<rparr>
                in train_epoch L reference_gen random_gen (Some loss') rg')))"

text \<open>The outer loop, \<^verbatim>\<open>for _ in range(num_epoch)\<close>, over the same two generators.\<close>

fun train_epochs ::
  "'n learner \<Rightarrow> nat \<Rightarrow> step_sequence list \<Rightarrow> step_sequence list \<Rightarrow> real option
     \<Rightarrow> 'n reward_generator \<Rightarrow> (error + real option) \<times> 'n reward_generator" where
  "train_epochs L 0 reference_gen random_gen loss rg = (Inr loss, rg)"
| "train_epochs L (Suc n) reference_gen random_gen loss rg =
     (case train_epoch L reference_gen random_gen loss rg of
        (Inl e, rg') \<Rightarrow> (Inl e, rg')
      | (Inr (loss', reference_gen', random_gen'), rg') \<Rightarrow>
          train_epochs L n reference_gen' random_gen' loss' rg')"

definition add_value ::
  "string \<Rightarrow> real option \<Rightarrow> (string \<times> real option) list \<Rightarrow> (string \<times> real option) list" where
  "add_value key v values = values @ [(key, v)]"

definition train ::
  "'n learner \<Rightarrow> rollouts \<Rightarrow> rollouts \<Rightarrow> int \<Rightarrow> 'n reward_generator
     \<Rightarrow> (error + real option) \<times> 'n reward_generator" where
  "train L reference_trajectory randomized_trajectory num_epoch rg =
     (let reference_batch_generator = iterate_rollouts reference_trajectory;
          random_batch_generator = iterate_rollouts randomized_trajectory
      in case train_epochs L (nat num_epoch) reference_batch_generator
                random_batch_generator None rg of
           (Inl e, rg') \<Rightarrow> (Inl e, rg')
         | (Inr loss, rg') \<Rightarrow>
             (Inr loss,
              rg'\<lparr>logger := map_option (add_value ''discriminator_loss'' loss) (logger rg')\<rparr>))"

subsection \<open>A small instance\<close>

text \<open>
  Two particles over the parameters \<open>m\<close> and \<open>l\<close>, a pool constructor that asserts a
  positive number of workers, a sampler that returns one fixed rollout per dictionary,
  and a random stream with the values 1/2, 1/3, 1/4 and so on. The theorems below are
  evaluated on it.
\<close>

definition example_rollout :: step_sequence where
  "example_rollout = \<lparr>observations = [[1, 2], [3, 4], [5, 6]], actions = [[7], [8]]\<rparr>"

definition example_collaborators :: collaborators where
  "example_collaborators =
     \<lparr>nominal_domain_param = [(''m'', Num 2), (''l'', Num 3)],
      sampler_pool = (\<lambda>n. if n < 1 then Inl AssertionError else Inr (Pool n)),
      eval_domain_params = (\<lambda>p ds. Inr (map (\<lambda>d. example_rollout) ds)),
      get_reward = (\<lambda>t. Inr (Num 0))\<rparr>"

definition example_adapter :: adapter where
  "example_adapter =
     \<lparr>parameters = [''m'', ''l''],
      pool = Some (Pool 4),
      num_particles = 2,
      inner_parameter_state = [nums [1 / 4, 1 / 2], nums [3 / 4, 1]],
      count = [0, 1],
      num_trajs = 1,
      svpg_max_step_length = Num (1 / 100),
      max_steps = 3,
      horizon = 2,
      horizon_count = 1\<rparr>"

definition example_rng :: rng where
  "example_rng = (\<lambda>k. 1 / (real k + 2))"

definition example_learner :: "nat learner" where
  "example_learner =
     \<lparr>forward = (\<lambda>w xs. map (\<lambda>x. 1 / 2) xs),
      loss_fcn = (\<lambda>out tgt. real (length out)),
      optimizer_step = (\<lambda>w a b. Suc w)\<rparr>"

definition example_generator :: "nat reward_generator" where
  "example_generator = \<lparr>discriminator = 0, optimizer_steps = 0, logger = Some []\<rparr>"

section \<open>Properties of the adapter\<close>

subsection \<open>What a successful call went through\<close>

lemma py_index_Inr: "py_index n i = Inr k \<Longrightarrow> k < n"
  by (auto simp: py_index_def split: if_splits)







lemma broadcast_to_length: "broadcast_to xs n = Inr r \<Longrightarrow> length r = n"
  by (auto simp: broadcast_to_def split: if_splits)


lemma set_row_Inr:
  assumes "set_row i xs a = Inr (r, a')"
  obtains k where "py_index (length (inner_parameter_state a)) i = Inr k"
    and "broadcast_to xs (length (inner_parameter_state a ! k)) = Inr r"
    and "a' = a\<lparr>inner_parameter_state := (inner_parameter_state a)[k := r]\<rparr>"
  using assms by (auto simp: set_row_def split: sum.splits)

lemma step_move_Inr:
  assumes "step_move act i a = Inr a1"
  obtains k s where "py_index (length (inner_parameter_state a)) i = Inr k"
    and "broadcast2 fadd (inner_parameter_state a ! k)
           (map (\<lambda>x. fmul x (svpg_max_step_length a)) (np_clip act (- 1) 1)) = Inr s"
    and "broadcast_to (np_clip s 0 1) (length (inner_parameter_state a ! k)) = Inr (np_clip s 0 1)"
    and "a1 = a\<lparr>inner_parameter_state := (inner_parameter_state a)[k := np_clip s 0 1]\<rparr>"
proof -
  from assms obtain k s r where k: "py_index (length (inner_parameter_state a)) i = Inr k"
    and s: "broadcast2 fadd (inner_parameter_state a ! k)
           (map (\<lambda>x. fmul x (svpg_max_step_length a)) (np_clip act (- 1) 1)) = Inr s"
    and r: "set_row i (np_clip s 0 1) a = Inr (r, a1)"
    by (auto simp: step_move_def Let_def split: sum.splits)
  from r k have b: "broadcast_to (np_clip s 0 1) (length (inner_parameter_state a ! k)) = Inr r"
    and a1: "a1 = a\<lparr>inner_parameter_state := (inner_parameter_state a)[k := r]\<rparr>"
    by (auto elim!: set_row_Inr)
  from s b have "r = np_clip s 0 1"
    by (auto simp: broadcast2_def broadcast_to_def np_clip_def split: if_splits)
  with k s b a1 that show thesis by blast
qed

lemma step_count_Inr:
  assumes "step_count i a g = (Inr (v, done), a', g')"
  obtains c k where "py_index (length (count a)) i = Inr c"
    and "py_index (length (inner_parameter_state a)) i = Inr k"
    and "done = (max_steps a - 1 \<le> count a ! c)"
    and "if horizon a \<noteq> 0 \<and> (count a ! c + 1) mod horizon a = 0
         then broadcast_to (fst (random_sample (length (parameters a)) g))
                (length (inner_parameter_state a ! k)) = Inr v
            \<and> g' = snd (random_sample (length (parameters a)) g)
            \<and> a' = a\<lparr>count := (count a)[c := count a ! c + 1],
                     horizon_count := horizon_count a + 1,
                     inner_parameter_state := (inner_parameter_state a)[k := v]\<rparr>
         else v = inner_parameter_state a ! k \<and> g' = g
            \<and> a' = a\<lparr>count := (count a)[c := count a ! c + 1],
                     horizon_count := horizon_count a + 1\<rparr>"
proof -
  from assms obtain c where c: "py_index (length (count a)) i = Inr c"
    by (auto simp: step_count_def split: sum.splits)
  then have lt: "c < length (count a)" by (rule py_index_Inr)
  from assms c lt obtain k where k: "py_index (length (inner_parameter_state a)) i = Inr k"
    by (auto simp: step_count_def Let_def set_row_def split: sum.splits prod.splits if_splits)
  from assms c have d: "done = (max_steps a - 1 \<le> count a ! c)"
    by (auto simp: step_count_def Let_def split: sum.splits prod.splits if_splits)
  have "if horizon a \<noteq> 0 \<and> (count a ! c + 1) mod horizon a = 0
         then broadcast_to (fst (random_sample (length (parameters a)) g))
                (length (inner_parameter_state a ! k)) = Inr v
            \<and> g' = snd (random_sample (length (parameters a)) g)
            \<and> a' = a\<lparr>count := (count a)[c := count a ! c + 1],
                     horizon_count := horizon_count a + 1,
                     inner_parameter_state := (inner_parameter_state a)[k := v]\<rparr>
         else v = inner_parameter_state a ! k \<and> g' = g
            \<and> a' = a\<lparr>count := (count a)[c := count a ! c + 1],
                     horizon_count := horizon_count a + 1\<rparr>"
  proof (cases "horizon a \<noteq> 0 \<and> (count a ! c + 1) mod horizon a = 0")
    case True
    with assms c k lt show ?thesis
      by (auto simp: step_count_def Let_def set_row_def split: sum.splits prod.splits)
  next
    case False
    with assms c k lt show ?thesis
      by (auto simp: step_count_def Let_def split: sum.splits prod.splits)
  qed
  with c k d show thesis by (rule that)
qed

lemma step_Inr:
  assumes "step E act (Some i) a g = (Inr (v, reward, done, info), a', g')"
  obtains a1 where "step_move act i a = Inr a1"
    and "step_sample E i a1 = Inr (reward, info)"
    and "step_count i a1 g = (Inr (v, done), a', g')"
  using assms by (auto simp: step_def split: sum.splits prod.splits)

subsection \<open>The instance, evaluated\<close>

lemmas step_defs = step_def step_move_def step_sample_def step_count_def set_row_def
  py_index_def broadcast2_def broadcast_to_def np_clip_def np_mean_def random_sample_def
  nominal_def nominal_dict_def array_to_dict_def params_def dict_get_def nums_def Let_def

lemma ex_step0:
  "step example_collaborators (nums [1, - 5]) (Some 0) example_adapter example_rng =
     (Inr (nums [13 / 50, 49 / 100], Num 0, False,
           \<lparr>rand = [example_rollout], ref = [example_rollout]\<rparr>),
      example_adapter\<lparr>inner_parameter_state := [nums [13 / 50, 49 / 100], nums [3 / 4, 1]],
                      count := [1, 1], horizon_count := 2\<rparr>,
      example_rng)"
  by (simp add: step_defs example_collaborators_def example_adapter_def example_rng_def)

lemma ex_step1:
  "step example_collaborators (nums [1, - 5]) (Some 1) example_adapter example_rng =
     (Inr (nums [1 / 2, 1 / 3], Num 0, False,
           \<lparr>rand = [example_rollout], ref = [example_rollout]\<rparr>),
      example_adapter\<lparr>inner_parameter_state := [nums [1 / 4, 1 / 2], nums [1 / 2, 1 / 3]],
                      count := [0, 2], horizon_count := 2\<rparr>,
      (\<lambda>k. example_rng (k + 2)))"
  by (simp add: step_defs example_collaborators_def example_adapter_def example_rng_def)



lemma ex_reset1:
  "reset (Particle 1 None) None example_adapter example_rng =
     (Inr (Row (nums [1 / 2, 1 / 3])),
      example_adapter\<lparr>inner_parameter_state := [nums [1 / 4, 1 / 2], nums [1 / 2, 1 / 3]],
                      count := [0, 0]\<rparr>,
      (\<lambda>k. example_rng (k + 2)))"
  by (simp add: reset_def step_defs example_adapter_def example_rng_def)

lemma ex_steps:
  "steps example_collaborators [nums [0, 0], nums [0, 0], nums [0, 0]] 1
     (example_adapter\<lparr>inner_parameter_state := [nums [1 / 4, 1 / 2], nums [1 / 2, 1 / 3]],
                      count := [0, 0]\<rparr>)
     (\<lambda>k. example_rng (k + 2)) =
     (Inr [False, False, True],
      example_adapter\<lparr>inner_parameter_state := [nums [1 / 4, 1 / 2], nums [1 / 4, 1 / 5]],
                      count := [0, 3], horizon_count := 4\<rparr>,
      (\<lambda>k. example_rng (k + 4)))"
  by (simp add: step_defs example_collaborators_def example_adapter_def example_rng_def)



subsection \<open>The stepped vector stays in the unit interval\<close>




subsection \<open>The value of the stepped vector\<close>

text \<open>
  Claim C2. Take a call \<^verbatim>\<open>step(a, i)\<close> that returns, on a particle whose counter is not
  negative, with an action and a parameter list of the length of the particle's row.
  When the counter after its increment is a multiple of the horizon, the vector
  returned is the next draw from the random stream, whatever the vector before the
  step and the action were. Otherwise it is the old vector plus the action clipped to
  the range from -1 to 1 and scaled by the step length, clipped to the range from 0 to 1;
  a component in which the old vector, the action or the step length is NaN is NaN.
\<close>

theorem step_vector_value:
  assumes "step E act (Some i) a g = (Inr (v, reward, done, info), a', g')"
    and "py_index (length (inner_parameter_state a)) i = Inr k"
    and "py_index (length (count a)) i = Inr c"
    and "0 \<le> count a ! c"
    and "length act = length (inner_parameter_state a ! k)"
    and "length (parameters a) = length (inner_parameter_state a ! k)"
  shows "v = (if horizon a dvd count a ! c + 1
              then map (\<lambda>j. Num (g j)) [0..<length (parameters a)]
              else map2 (\<lambda>x u. case (x, u, svpg_max_step_length a) of
                                 (Num x', Num u', Num s') \<Rightarrow>
                                   Num (min (max (x' + min (max u' (- 1)) 1 * s') 0) 1)
                               | _ \<Rightarrow> NaN)
                     (inner_parameter_state a ! k) act)"
proof -
  from assms(1) obtain a1 where mv: "step_move act i a = Inr a1"
    and ct: "step_count i a1 g = (Inr (v, done), a', g')"
    by (rule step_Inr)
  from assms(2) have lt: "k < length (inner_parameter_state a)" by (rule py_index_Inr)
  from mv assms(2) obtain s where
    s: "broadcast2 fadd (inner_parameter_state a ! k)
           (map (\<lambda>x. fmul x (svpg_max_step_length a)) (np_clip act (- 1) 1)) = Inr s"
    and a1: "a1 = a\<lparr>inner_parameter_state := (inner_parameter_state a)[k := np_clip s 0 1]\<rparr>"
    by (auto elim!: step_move_Inr)
  from s assms(5) have len: "length (np_clip s 0 1) = length (inner_parameter_state a ! k)"
    by (auto simp: broadcast2_def np_clip_def)
  have row: "np_clip s 0 1 =
      map2 (\<lambda>x u. case (x, u, svpg_max_step_length a) of
                     (Num x', Num u', Num s') \<Rightarrow>
                       Num (min (max (x' + min (max u' (- 1)) 1 * s') 0) 1)
                   | _ \<Rightarrow> NaN)
        (inner_parameter_state a ! k) act"
  proof (rule nth_equalityI)
    show "length (np_clip s 0 1) =
      length (map2 (\<lambda>x u. case (x, u, svpg_max_step_length a) of
                     (Num x', Num u', Num s') \<Rightarrow>
                       Num (min (max (x' + min (max u' (- 1)) 1 * s') 0) 1)
                   | _ \<Rightarrow> NaN)
        (inner_parameter_state a ! k) act)"
      using len assms(5) by simp
  next
    fix n assume "n < length (np_clip s 0 1)"
    with len assms(5) have n: "n < length (inner_parameter_state a ! k)" "n < length act"
      by simp_all
    from s assms(5) have "s = map2 fadd (inner_parameter_state a ! k)
           (map (\<lambda>x. fmul x (svpg_max_step_length a)) (np_clip act (- 1) 1))"
      by (simp add: broadcast2_def np_clip_def)
    with n show "np_clip s 0 1 ! n =
      map2 (\<lambda>x u. case (x, u, svpg_max_step_length a) of
                     (Num x', Num u', Num s') \<Rightarrow>
                       Num (min (max (x' + min (max u' (- 1)) 1 * s') 0) 1)
                   | _ \<Rightarrow> NaN)
        (inner_parameter_state a ! k) act ! n"
      by (cases "inner_parameter_state a ! k ! n"; cases "act ! n";
          cases "svpg_max_step_length a") (simp_all add: np_clip_def)
  qed
  have pos: "0 < count a ! c + 1" using assms(4) by simp
  have dvd: "(horizon a \<noteq> 0 \<and> (count a ! c + 1) mod horizon a = 0) = (horizon a dvd count a ! c + 1)"
    using pos by (auto simp: mod_eq_0_iff_dvd)
  from ct obtain c' k' where c': "py_index (length (count a1)) i = Inr c'"
    and k': "py_index (length (inner_parameter_state a1)) i = Inr k'"
    and cases: "if horizon a1 \<noteq> 0 \<and> (count a1 ! c' + 1) mod horizon a1 = 0
         then broadcast_to (fst (random_sample (length (parameters a1)) g))
                (length (inner_parameter_state a1 ! k')) = Inr v
            \<and> g' = snd (random_sample (length (parameters a1)) g)
            \<and> a' = a1\<lparr>count := (count a1)[c' := count a1 ! c' + 1],
                     horizon_count := horizon_count a1 + 1,
                     inner_parameter_state := (inner_parameter_state a1)[k' := v]\<rparr>
         else v = inner_parameter_state a1 ! k' \<and> g' = g
            \<and> a' = a1\<lparr>count := (count a1)[c' := count a1 ! c' + 1],
                     horizon_count := horizon_count a1 + 1\<rparr>"
    by (rule step_count_Inr)
  from c' k' a1 assms(2,3) have "c' = c" "k' = k" by simp_all
  with cases a1 lt
  have "if horizon a \<noteq> 0 \<and> (count a ! c + 1) mod horizon a = 0
        then broadcast_to (fst (random_sample (length (parameters a)) g))
                (length (np_clip s 0 1)) = Inr v
        else v = np_clip s 0 1"
    by (auto split: if_splits)
  with dvd len assms(6) row show ?thesis
    by (auto simp: broadcast_to_def random_sample_def split: if_splits)
qed

theorem step_vector_value_witness:
  "step example_collaborators (nums [1, - 5]) (Some 0) example_adapter example_rng =
     (Inr (nums [13 / 50, 49 / 100], Num 0, False,
           \<lparr>rand = [example_rollout], ref = [example_rollout]\<rparr>),
      example_adapter\<lparr>inner_parameter_state := [nums [13 / 50, 49 / 100], nums [3 / 4, 1]],
                      count := [1, 1], horizon_count := 2\<rparr>,
      example_rng) \<and>
   py_index (length (inner_parameter_state example_adapter)) 0 = Inr 0 \<and>
   py_index (length (count example_adapter)) 0 = Inr 0 \<and>
   0 \<le> count example_adapter ! 0 \<and>
   length (nums [1, - 5]) = length (inner_parameter_state example_adapter ! 0) \<and>
   length (parameters example_adapter) = length (inner_parameter_state example_adapter ! 0) \<and>
   \<not> horizon example_adapter dvd count example_adapter ! 0 + 1 \<and>
   nums [13 / 50, 49 / 100] =
     map2 (\<lambda>x u. case (x, u, svpg_max_step_length example_adapter) of
                    (Num x', Num u', Num s') \<Rightarrow>
                      Num (min (max (x' + min (max u' (- 1)) 1 * s') 0) 1)
                  | _ \<Rightarrow> NaN)
       (inner_parameter_state example_adapter ! 0) (nums [1, - 5]) \<and>
   step example_collaborators (nums [1, - 5]) (Some 1) example_adapter example_rng =
     (Inr (nums [1 / 2, 1 / 3], Num 0, False,
           \<lparr>rand = [example_rollout], ref = [example_rollout]\<rparr>),
      example_adapter\<lparr>inner_parameter_state := [nums [1 / 4, 1 / 2], nums [1 / 2, 1 / 3]],
                      count := [0, 2], horizon_count := 2\<rparr>,
      (\<lambda>k. example_rng (k + 2))) \<and>
   py_index (length (inner_parameter_state example_adapter)) 1 = Inr 1 \<and>
   py_index (length (count example_adapter)) 1 = Inr 1 \<and>
   0 \<le> count example_adapter ! 1 \<and>
   length (nums [1, - 5]) = length (inner_parameter_state example_adapter ! 1) \<and>
   length (parameters example_adapter) = length (inner_parameter_state example_adapter ! 1) \<and>
   horizon example_adapter dvd count example_adapter ! 1 + 1 \<and>
   nums [1 / 2, 1 / 3] =
     map (\<lambda>j. Num (example_rng j)) [0..<length (parameters example_adapter)]"
proof -
  have i0: "py_index (length (inner_parameter_state example_adapter)) 0 = Inr 0"
    and c0: "py_index (length (count example_adapter)) 0 = Inr 0"
    and n0: "0 \<le> count example_adapter ! 0"
    and l0: "length (nums [1, - 5]) = length (inner_parameter_state example_adapter ! 0)"
    and p0: "length (parameters example_adapter) = length (inner_parameter_state example_adapter ! 0)"
    and d0: "\<not> horizon example_adapter dvd count example_adapter ! 0 + 1"
    by (simp_all add: example_adapter_def py_index_def nums_def)
  have i1: "py_index (length (inner_parameter_state example_adapter)) 1 = Inr 1"
    and c1: "py_index (length (count example_adapter)) 1 = Inr 1"
    and n1: "0 \<le> count example_adapter ! 1"
    and l1: "length (nums [1, - 5]) = length (inner_parameter_state example_adapter ! 1)"
    and p1: "length (parameters example_adapter) = length (inner_parameter_state example_adapter ! 1)"
    and d1: "horizon example_adapter dvd count example_adapter ! 1 + 1"
    by (simp_all add: example_adapter_def py_index_def nums_def)
  from step_vector_value [OF ex_step0 i0 c0 n0 l0 p0] d0
  have r0: "nums [13 / 50, 49 / 100] =
     map2 (\<lambda>x u. case (x, u, svpg_max_step_length example_adapter) of
                    (Num x', Num u', Num s') \<Rightarrow>
                      Num (min (max (x' + min (max u' (- 1)) 1 * s') 0) 1)
                  | _ \<Rightarrow> NaN)
       (inner_parameter_state example_adapter ! 0) (nums [1, - 5])"
    by simp
  from step_vector_value [OF ex_step1 i1 c1 n1 l1 p1] d1
  have r1: "nums [1 / 2, 1 / 3] =
     map (\<lambda>j. Num (example_rng j)) [0..<length (parameters example_adapter)]"
    by simp
  from ex_step0 i0 c0 n0 l0 p0 d0 r0 ex_step1 i1 c1 n1 l1 p1 d1 r1
  show ?thesis by (intro conjI)
qed

subsection \<open>The done flag\<close>

lemma step_counter:
  assumes "step E act (Some i) a g = (Inr (v, reward, done, info), a', g')"
  obtains c where "py_index (length (count a)) i = Inr c"
    and "done = (max_steps a - 1 \<le> count a ! c)"
    and "count a' = (count a)[c := count a ! c + 1]"
    and "max_steps a' = max_steps a"
proof -
  from assms obtain a1 where mv: "step_move act i a = Inr a1"
    and ct: "step_count i a1 g = (Inr (v, done), a', g')"
    by (rule step_Inr)
  from mv obtain k s where
    a1: "a1 = a\<lparr>inner_parameter_state := (inner_parameter_state a)[k := np_clip s 0 1]\<rparr>"
    by (rule step_move_Inr)
  from ct obtain c k' where c: "py_index (length (count a1)) i = Inr c"
    and d: "done = (max_steps a1 - 1 \<le> count a1 ! c)"
    and cases: "if horizon a1 \<noteq> 0 \<and> (count a1 ! c + 1) mod horizon a1 = 0
         then broadcast_to (fst (random_sample (length (parameters a1)) g))
                (length (inner_parameter_state a1 ! k')) = Inr v
            \<and> g' = snd (random_sample (length (parameters a1)) g)
            \<and> a' = a1\<lparr>count := (count a1)[c := count a1 ! c + 1],
                     horizon_count := horizon_count a1 + 1,
                     inner_parameter_state := (inner_parameter_state a1)[k' := v]\<rparr>
         else v = inner_parameter_state a1 ! k' \<and> g' = g
            \<and> a' = a1\<lparr>count := (count a1)[c := count a1 ! c + 1],
                     horizon_count := horizon_count a1 + 1\<rparr>"
    by (rule step_count_Inr)
  from cases have "count a' = (count a1)[c := count a1 ! c + 1] \<and> max_steps a' = max_steps a1"
    by (auto split: if_splits)
  with c d a1 that show thesis by simp
qed

lemma steps_flags:
  assumes "steps E acts i a g = (Inr ds, a', g')"
    and "py_index (length (count a)) i = Inr c"
  shows "length ds = length acts \<and>
         (\<forall>n<length acts. ds ! n = (max_steps a - 1 \<le> count a ! c + int n))"
  using assms
proof (induction acts arbitrary: a g ds)
  case Nil
  then show ?case by simp
next
  case (Cons act acts)
  from Cons.prems(1) obtain v reward d info a1 g1 ds'
    where st: "step E act (Some i) a g = (Inr (v, reward, d, info), a1, g1)"
      and rest: "steps E acts i a1 g1 = (Inr ds', a', g')"
      and ds: "ds = d # ds'"
    by (auto split: sum.splits prod.splits)
  from st Cons.prems(2) have d: "d = (max_steps a - 1 \<le> count a ! c)"
    and c1: "count a1 = (count a)[c := count a ! c + 1]"
    and m1: "max_steps a1 = max_steps a"
    by (auto elim!: step_counter)
  from Cons.prems(2) have lt: "c < length (count a)" by (rule py_index_Inr)
  from c1 Cons.prems(2) have "py_index (length (count a1)) i = Inr c" by simp
  from Cons.IH [OF rest this] c1 m1 lt
  have len: "length ds' = length acts"
    and tl: "\<forall>n<length acts. ds' ! n = (max_steps a - 1 \<le> count a ! c + 1 + int n)"
    by simp_all
  have "\<forall>n<length (act # acts). ds ! n = (max_steps a - 1 \<le> count a ! c + int n)"
  proof (intro allI impI)
    fix n assume "n < length (act # acts)"
    then show "ds ! n = (max_steps a - 1 \<le> count a ! c + int n)"
      using d tl ds by (cases n) (auto simp: algebra_simps)
  qed
  with len ds show ?case by simp
qed

lemma reset_particle_Inr:
  assumes "reset (Particle i init_state) dp a0 g0 = (Inr r, a, g)"
  obtains c where "py_index (length (count a0)) i = Inr c"
    and "count a = (count a0)[c := 0]" and "max_steps a = max_steps a0"
  using assms
  by (auto simp: reset_def Let_def set_row_def split: sum.splits prod.splits if_splits option.splits)

text \<open>
  Claim C4. The \<open>done\<close> flag that \<^verbatim>\<open>step(a, i)\<close> returns is true exactly when the
  particle's counter, as it is before the call increments it, is at least
  \<open>max_steps - 1\<close>. So after \<^verbatim>\<open>reset(i)\<close>, in a run of calls of \<^verbatim>\<open>step\<close> on the
  particle, the call number \<open>n + 1\<close> returns \<open>done\<close> exactly when \<open>n + 1\<close> has reached
  \<open>max_steps\<close>: the first \<open>max_steps - 1\<close> calls return false and call number
  \<open>max_steps\<close> returns true.
\<close>

theorem step_done_flag:
  "(step E act (Some i) a g = (Inr (v, reward, done, info), a', g') \<and>
      py_index (length (count a)) i = Inr c
      \<longrightarrow> done = (max_steps a - 1 \<le> count a ! c)) \<and>
   (reset (Particle i init_state) None a0 g0 = (Inr r, a1, g1) \<and>
      steps E acts i a1 g1 = (Inr ds, a2, g2)
      \<longrightarrow> length ds = length acts \<and>
          (\<forall>n<length acts. ds ! n = (max_steps a0 \<le> int n + 1)))"
proof (intro conjI impI)
  assume "step E act (Some i) a g = (Inr (v, reward, done, info), a', g') \<and>
      py_index (length (count a)) i = Inr c"
  then show "done = (max_steps a - 1 \<le> count a ! c)"
    by (auto elim!: step_counter)
next
  assume h: "reset (Particle i init_state) None a0 g0 = (Inr r, a1, g1) \<and>
      steps E acts i a1 g1 = (Inr ds, a2, g2)"
  then obtain c where c0: "py_index (length (count a0)) i = Inr c"
    and c1: "count a1 = (count a0)[c := 0]" and m: "max_steps a1 = max_steps a0"
    by (auto elim!: reset_particle_Inr)
  from c0 have lt: "c < length (count a0)" by (rule py_index_Inr)
  from c0 c1 have "py_index (length (count a1)) i = Inr c" by simp
  from steps_flags [OF conjunct2 [OF h] this] c1 m lt
  show "length ds = length acts" and "\<forall>n<length acts. ds ! n = (max_steps a0 \<le> int n + 1)"
    by (auto simp: algebra_simps)
qed

theorem step_done_flag_witness:
  "step example_collaborators (nums [1, - 5]) (Some 0) example_adapter example_rng =
     (Inr (nums [13 / 50, 49 / 100], Num 0, False,
           \<lparr>rand = [example_rollout], ref = [example_rollout]\<rparr>),
      example_adapter\<lparr>inner_parameter_state := [nums [13 / 50, 49 / 100], nums [3 / 4, 1]],
                      count := [1, 1], horizon_count := 2\<rparr>,
      example_rng) \<and>
   py_index (length (count example_adapter)) 0 = Inr 0 \<and>
   False = (max_steps example_adapter - 1 \<le> count example_adapter ! 0) \<and>
   reset (Particle 1 None) None example_adapter example_rng =
     (Inr (Row (nums [1 / 2, 1 / 3])),
      example_adapter\<lparr>inner_parameter_state := [nums [1 / 4, 1 / 2], nums [1 / 2, 1 / 3]],
                      count := [0, 0]\<rparr>,
      (\<lambda>k. example_rng (k + 2))) \<and>
   steps example_collaborators [nums [0, 0], nums [0, 0], nums [0, 0]] 1
     (example_adapter\<lparr>inner_parameter_state := [nums [1 / 4, 1 / 2], nums [1 / 2, 1 / 3]],
                      count := [0, 0]\<rparr>)
     (\<lambda>k. example_rng (k + 2)) =
     (Inr [False, False, True],
      example_adapter\<lparr>inner_parameter_state := [nums [1 / 4, 1 / 2], nums [1 / 4, 1 / 5]],
                      count := [0, 3], horizon_count := 4\<rparr>,
      (\<lambda>k. example_rng (k + 4))) \<and>
   max_steps example_adapter = 3 \<and>
   length [False, False, True] = length [nums [0, 0], nums [0, 0], nums [0, 0]] \<and>
   [False, False, True] ! 0 = (max_steps example_adapter \<le> int 0 + 1) \<and>
   [False, False, True] ! 1 = (max_steps example_adapter \<le> int 1 + 1) \<and>
   [False, False, True] ! 2 = (max_steps example_adapter \<le> int 2 + 1)"
proof -
  have c0: "py_index (length (count example_adapter)) 0 = Inr 0"
    and m: "max_steps example_adapter = 3"
    by (simp_all add: example_adapter_def py_index_def)
  have a: "False = (max_steps example_adapter - 1 \<le> count example_adapter ! 0)"
    by (rule step_done_flag [THEN conjunct1, THEN mp, OF conjI [OF ex_step0 c0]])
  from step_done_flag [THEN conjunct2, THEN mp, OF conjI [OF ex_reset1 ex_steps]]
  have b: "\<forall>n<length [nums [0, 0], nums [0, 0], nums [0, 0]].
             [False, False, True] ! n = (max_steps example_adapter \<le> int n + 1)"
    by (rule conjunct2)
  have b0: "[False, False, True] ! 0 = (max_steps example_adapter \<le> int 0 + 1)"
    using b [rule_format, of 0] by simp
  have b1: "[False, False, True] ! 1 = (max_steps example_adapter \<le> int 1 + 1)"
    using b [rule_format, of 1] by simp
  have b2: "[False, False, True] ! 2 = (max_steps example_adapter \<le> int 2 + 1)"
    using b [rule_format, of 2] by simp
  have len: "length [False, False, True] = length [nums [0, 0], nums [0, 0], nums [0, 0]]" by simp
  from ex_step0 c0 a ex_reset1 ex_steps m len b0 b1 b2 show ?thesis by (intro conjI)
qed

subsection \<open>Other particles are left alone\<close>

lemma set_row_frame:
  assumes "set_row i xs a = Inr (r, a')"
  obtains rows where "a' = a\<lparr>inner_parameter_state := rows\<rparr>"
    and "length rows = length (inner_parameter_state a)"
    and "\<forall>j. py_index (length (inner_parameter_state a)) i \<noteq> Inr j \<longrightarrow>
              rows ! j = inner_parameter_state a ! j"
  using assms by (auto simp: set_row_def split: sum.splits)

lemma step_move_frame:
  assumes "step_move act i a = Inr a'"
  obtains rows where "a' = a\<lparr>inner_parameter_state := rows\<rparr>"
    and "length rows = length (inner_parameter_state a)"
    and "\<forall>j. py_index (length (inner_parameter_state a)) i \<noteq> Inr j \<longrightarrow>
              rows ! j = inner_parameter_state a ! j"
proof -
  from assms obtain s r where "set_row i (np_clip s 0 1) a = Inr (r, a')"
    by (auto simp: step_move_def Let_def split: sum.splits)
  then show thesis by (rule set_row_frame) (rule that)
qed

lemma step_count_frame:
  assumes "step_count i a g = (res, a', g')"
  obtains rows cs h where
    "a' = a\<lparr>inner_parameter_state := rows, count := cs, horizon_count := h\<rparr>"
    and "length rows = length (inner_parameter_state a)"
    and "length cs = length (count a)"
    and "\<forall>j. py_index (length (inner_parameter_state a)) i \<noteq> Inr j \<longrightarrow>
              rows ! j = inner_parameter_state a ! j"
    and "\<forall>j. py_index (length (count a)) i \<noteq> Inr j \<longrightarrow> cs ! j = count a ! j"
    and "\<forall>out. res = Inr out \<longrightarrow> h = horizon_count a + 1"
proof (cases "py_index (length (count a)) i")
  case (Inl e)
  with assms have "a' = a" and "res = Inl e"
    by (auto simp: step_count_def)
  then show thesis
    by (intro that [where rows = "inner_parameter_state a" and cs = "count a"
          and h = "horizon_count a"]) auto
next
  case (Inr c)
  define a1 where "a1 = a\<lparr>count := (count a)[c := count a ! c + 1],
                      horizon_count := horizon_count a + 1\<rparr>"
  note R = that
  have plain: thesis if eq: "a' = a1"
  proof (rule R [where rows = "inner_parameter_state a"
        and cs = "(count a)[c := count a ! c + 1]" and h = "horizon_count a + 1"])
    show "a' = a\<lparr>inner_parameter_state := inner_parameter_state a,
                   count := (count a)[c := count a ! c + 1],
                   horizon_count := horizon_count a + 1\<rparr>"
      using eq by (simp add: a1_def)
    show "\<forall>j. py_index (length (count a)) i \<noteq> Inr j \<longrightarrow>
              (count a)[c := count a ! c + 1] ! j = count a ! j"
      using Inr by auto
  qed simp_all
  show thesis
  proof (cases "horizon a \<noteq> 0 \<and> (count a1 ! c) mod horizon a = 0")
    case True
    obtain xs g1 where rs: "random_sample (length (parameters a)) g = (xs, g1)"
      by (cases "random_sample (length (parameters a)) g")
    show thesis
    proof (cases "set_row i xs a1")
      case (Inl e)
      with assms Inr True rs have "a' = a1"
        by (auto simp: step_count_def Let_def a1_def)
      then show thesis by (rule plain)
    next
      case sr: (Inr p)
      obtain r a2 where p: "p = (r, a2)" by (cases p)
      from sr [unfolded p] obtain rows where a2: "a2 = a1\<lparr>inner_parameter_state := rows\<rparr>"
        and len: "length rows = length (inner_parameter_state a1)"
        and fr: "\<forall>j. py_index (length (inner_parameter_state a1)) i \<noteq> Inr j \<longrightarrow>
              rows ! j = inner_parameter_state a1 ! j"
        by (rule set_row_frame)
      from assms Inr True rs sr p have "a' = a2"
        by (auto simp: step_count_def Let_def a1_def)
      with a2 len fr Inr show thesis
        by (intro that [where rows = rows and cs = "(count a)[c := count a ! c + 1]"
              and h = "horizon_count a + 1"])
           (auto simp: a1_def)
    qed
  next
    case False
    with assms Inr have "a' = a1"
      by (auto simp: step_count_def Let_def a1_def split: sum.splits)
    then show thesis by (rule plain)
  qed
qed

text \<open>
  Claim C10. A call \<^verbatim>\<open>step(a, i)\<close> or \<^verbatim>\<open>reset(i, init_state)\<close>, however it ends, changes
  of the adapter at most the parameter matrix, the counters and, for \<^verbatim>\<open>step\<close>, the
  shared \<open>horizon_count\<close>, which a \<^verbatim>\<open>step\<close> that returns has incremented by one. Both
  arrays keep their size, and every row and every counter other than those of the
  particle that \<open>i\<close> denotes is as it was.
\<close>

theorem index_scoped_frame:
  "(step E act (Some i) a g = (res, a', g') \<longrightarrow>
      a' = a\<lparr>inner_parameter_state := inner_parameter_state a', count := count a',
              horizon_count := horizon_count a'\<rparr> \<and>
      length (inner_parameter_state a') = length (inner_parameter_state a) \<and>
      length (count a') = length (count a) \<and>
      (\<forall>j. py_index (length (inner_parameter_state a)) i \<noteq> Inr j \<longrightarrow>
           inner_parameter_state a' ! j = inner_parameter_state a ! j) \<and>
      (\<forall>j. py_index (length (count a)) i \<noteq> Inr j \<longrightarrow> count a' ! j = count a ! j) \<and>
      (\<forall>out. res = Inr out \<longrightarrow> horizon_count a' = horizon_count a + 1)) \<and>
   (reset (Particle i init_state) domain_param a g = (res', a'', g'') \<longrightarrow>
      a'' = a\<lparr>inner_parameter_state := inner_parameter_state a'', count := count a''\<rparr> \<and>
      length (inner_parameter_state a'') = length (inner_parameter_state a) \<and>
      length (count a'') = length (count a) \<and>
      (\<forall>j. py_index (length (inner_parameter_state a)) i \<noteq> Inr j \<longrightarrow>
           inner_parameter_state a'' ! j = inner_parameter_state a ! j) \<and>
      (\<forall>j. py_index (length (count a)) i \<noteq> Inr j \<longrightarrow> count a'' ! j = count a ! j))"
proof (rule conjI; rule impI)
  assume st: "step E act (Some i) a g = (res, a', g')"
  show "a' = a\<lparr>inner_parameter_state := inner_parameter_state a', count := count a',
              horizon_count := horizon_count a'\<rparr> \<and>
      length (inner_parameter_state a') = length (inner_parameter_state a) \<and>
      length (count a') = length (count a) \<and>
      (\<forall>j. py_index (length (inner_parameter_state a)) i \<noteq> Inr j \<longrightarrow>
           inner_parameter_state a' ! j = inner_parameter_state a ! j) \<and>
      (\<forall>j. py_index (length (count a)) i \<noteq> Inr j \<longrightarrow> count a' ! j = count a ! j) \<and>
      (\<forall>out. res = Inr out \<longrightarrow> horizon_count a' = horizon_count a + 1)"
  proof (cases "step_move act i a")
    case (Inl e)
    with st show ?thesis by (auto simp: step_def)
  next
    case (Inr a1)
    then obtain rows where a1: "a1 = a\<lparr>inner_parameter_state := rows\<rparr>"
      and len: "length rows = length (inner_parameter_state a)"
      and fr: "\<forall>j. py_index (length (inner_parameter_state a)) i \<noteq> Inr j \<longrightarrow>
              rows ! j = inner_parameter_state a ! j"
      by (rule step_move_frame)
    show ?thesis
    proof (cases "step_sample E i a1")
      case (Inl e)
      with st Inr have "a' = a1" "res = Inl e" by (auto simp: step_def)
      with a1 len fr show ?thesis by auto
    next
      case sm: (Inr p)
      obtain res2 a2 g2 where ct: "step_count i a1 g = (res2, a2, g2)"
        by (cases "step_count i a1 g") auto
      from st Inr sm ct have a': "a' = a2"
        and res: "\<forall>out. res = Inr out \<longrightarrow> (\<exists>o2. res2 = Inr o2)"
        by (auto simp: step_def split: sum.splits prod.splits)
      from ct obtain rows2 cs h where
        a2: "a2 = a1\<lparr>inner_parameter_state := rows2, count := cs, horizon_count := h\<rparr>"
        and len2: "length rows2 = length (inner_parameter_state a1)"
        and lenc: "length cs = length (count a1)"
        and fr2: "\<forall>j. py_index (length (inner_parameter_state a1)) i \<noteq> Inr j \<longrightarrow>
              rows2 ! j = inner_parameter_state a1 ! j"
        and frc: "\<forall>j. py_index (length (count a1)) i \<noteq> Inr j \<longrightarrow> cs ! j = count a1 ! j"
        and hc: "\<forall>out. res2 = Inr out \<longrightarrow> h = horizon_count a1 + 1"
        by (rule step_count_frame)
      from a' a2 a1 len len2 lenc fr fr2 frc hc res show ?thesis
        by (auto simp del: split_paired_All split_paired_Ex)
    qed
  qed
next
  assume rs: "reset (Particle i init_state) domain_param a g = (res', a'', g'')"
  show "a'' = a\<lparr>inner_parameter_state := inner_parameter_state a'', count := count a''\<rparr> \<and>
      length (inner_parameter_state a'') = length (inner_parameter_state a) \<and>
      length (count a'') = length (count a) \<and>
      (\<forall>j. py_index (length (inner_parameter_state a)) i \<noteq> Inr j \<longrightarrow>
           inner_parameter_state a'' ! j = inner_parameter_state a ! j) \<and>
      (\<forall>j. py_index (length (count a)) i \<noteq> Inr j \<longrightarrow> count a'' ! j = count a ! j)"
    using rs
    by (auto simp: reset_def Let_def set_row_def split: sum.splits prod.splits if_splits option.splits)
qed

theorem index_scoped_frame_witness:
  "step example_collaborators (nums [1, - 5]) (Some 0) example_adapter example_rng =
     (Inr (nums [13 / 50, 49 / 100], Num 0, False,
           \<lparr>rand = [example_rollout], ref = [example_rollout]\<rparr>),
      example_adapter\<lparr>inner_parameter_state := [nums [13 / 50, 49 / 100], nums [3 / 4, 1]],
                      count := [1, 1], horizon_count := 2\<rparr>,
      example_rng) \<and>
   py_index (length (inner_parameter_state example_adapter)) 0 \<noteq> Inr 1 \<and>
   py_index (length (count example_adapter)) 0 \<noteq> Inr 1 \<and>
   inner_parameter_state
     (example_adapter\<lparr>inner_parameter_state := [nums [13 / 50, 49 / 100], nums [3 / 4, 1]],
                      count := [1, 1], horizon_count := 2\<rparr>) ! 1 =
     inner_parameter_state example_adapter ! 1 \<and>
   count (example_adapter\<lparr>inner_parameter_state := [nums [13 / 50, 49 / 100], nums [3 / 4, 1]],
                      count := [1, 1], horizon_count := 2\<rparr>) ! 1 =
     count example_adapter ! 1 \<and>
   horizon_count (example_adapter\<lparr>inner_parameter_state := [nums [13 / 50, 49 / 100], nums [3 / 4, 1]],
                      count := [1, 1], horizon_count := 2\<rparr>) =
     horizon_count example_adapter + 1 \<and>
   reset (Particle 1 None) None example_adapter example_rng =
     (Inr (Row (nums [1 / 2, 1 / 3])),
      example_adapter\<lparr>inner_parameter_state := [nums [1 / 4, 1 / 2], nums [1 / 2, 1 / 3]],
                      count := [0, 0]\<rparr>,
      (\<lambda>k. example_rng (k + 2))) \<and>
   py_index (length (inner_parameter_state example_adapter)) 1 \<noteq> Inr 0 \<and>
   py_index (length (count example_adapter)) 1 \<noteq> Inr 0 \<and>
   inner_parameter_state
     (example_adapter\<lparr>inner_parameter_state := [nums [1 / 4, 1 / 2], nums [1 / 2, 1 / 3]],
                      count := [0, 0]\<rparr>) ! 0 =
     inner_parameter_state example_adapter ! 0 \<and>
   count (example_adapter\<lparr>inner_parameter_state := [nums [1 / 4, 1 / 2], nums [1 / 2, 1 / 3]],
                      count := [0, 0]\<rparr>) ! 0 =
     count example_adapter ! 0"
proof -
  have i01: "py_index (length (inner_parameter_state example_adapter)) 0 \<noteq> Inr 1"
    and c01: "py_index (length (count example_adapter)) 0 \<noteq> Inr 1"
    and i10: "py_index (length (inner_parameter_state example_adapter)) 1 \<noteq> Inr 0"
    and c10: "py_index (length (count example_adapter)) 1 \<noteq> Inr 0"
    by (simp_all add: example_adapter_def py_index_def)
  from index_scoped_frame [THEN conjunct1, THEN mp, OF ex_step0] i01 c01
  have s1: "inner_parameter_state
     (example_adapter\<lparr>inner_parameter_state := [nums [13 / 50, 49 / 100], nums [3 / 4, 1]],
                      count := [1, 1], horizon_count := 2\<rparr>) ! 1 =
     inner_parameter_state example_adapter ! 1"
    and s2: "count (example_adapter\<lparr>inner_parameter_state := [nums [13 / 50, 49 / 100], nums [3 / 4, 1]],
                      count := [1, 1], horizon_count := 2\<rparr>) ! 1 =
     count example_adapter ! 1"
    and s3: "horizon_count (example_adapter\<lparr>inner_parameter_state := [nums [13 / 50, 49 / 100], nums [3 / 4, 1]],
                      count := [1, 1], horizon_count := 2\<rparr>) =
     horizon_count example_adapter + 1"
    by blast+
  from index_scoped_frame [THEN conjunct2, THEN mp, OF ex_reset1] i10 c10
  have r1: "inner_parameter_state
     (example_adapter\<lparr>inner_parameter_state := [nums [1 / 4, 1 / 2], nums [1 / 2, 1 / 3]],
                      count := [0, 0]\<rparr>) ! 0 =
     inner_parameter_state example_adapter ! 0"
    and r2: "count (example_adapter\<lparr>inner_parameter_state := [nums [1 / 4, 1 / 2], nums [1 / 2, 1 / 3]],
                      count := [0, 0]\<rparr>) ! 0 =
     count example_adapter ! 0"
    by blast+
  from ex_step0 i01 c01 s1 s2 s3 ex_reset1 i10 c10 r1 r2 show ?thesis by (intro conjI)
qed

subsection \<open>A step needs a particle index\<close>

text \<open>
  Claim C7. \<^verbatim>\<open>step(a, None)\<close> raises NotImplementedError, for every action and in every
  state, and it does so before anything happens: the adapter and the random stream are
  as they were, no row is moved, no rollout is sampled, and no particle is stepped in
  its place.
\<close>

theorem step_without_index:
  "step E act None a g = (Inl NotImplementedError, a, g)"
  by (simp add: step_def)

subsection \<open>Nominal values as a list and as a dictionary\<close>

lemma collect_dict_comprehension:
  "collect f ks = Inr vs \<Longrightarrow>
   dict_comprehension f ks d = Inr (fold (\<lambda>(k, v) d. AList.update k v d) (zip ks vs) d)"
  by (induction ks arbitrary: vs d) (auto split: sum.splits)

lemma collect_total:
  "\<forall>k\<in>set ks. \<exists>v. f k = Inr v \<Longrightarrow> \<exists>vs. collect f ks = Inr vs"
  by (induction ks) (auto split: sum.splits)

lemma dict_get_total: "k \<in> fst ` set d \<Longrightarrow> \<exists>v. dict_get d k = Inr v"
  by (cases "map_of d k") (auto simp: dict_get_def map_of_eq_None_iff)

text \<open>
  Claim C5. When the nominal domain parameters of the wrapped environment have a value
  for every randomized parameter name, \<^verbatim>\<open>nominal()\<close> and \<^verbatim>\<open>nominal_dict()\<close> both
  return, and \<^verbatim>\<open>array_to_dict(nominal())\<close> is \<^verbatim>\<open>nominal_dict()\<close>, entry for entry and in
  the same order: all three go through the names in the order fixed at construction.
\<close>

theorem nominal_round_trip:
  assumes "set (params a) \<subseteq> fst ` set (nominal_domain_param E)"
  shows "\<exists>vs. nominal E a = Inr vs \<and> nominal_dict E a = Inr (array_to_dict a vs)"
proof -
  from assms have "\<forall>k\<in>set (params a). \<exists>v. dict_get (nominal_domain_param E) k = Inr v"
    by (auto intro: dict_get_total)
  then obtain vs where vs: "collect (dict_get (nominal_domain_param E)) (params a) = Inr vs"
    using collect_total by blast
  from collect_dict_comprehension [OF vs]
  have "nominal_dict E a = Inr (array_to_dict a vs)"
    by (simp add: nominal_dict_def array_to_dict_def)
  with vs show ?thesis by (simp add: nominal_def)
qed

theorem nominal_round_trip_witness:
  "set (params example_adapter) \<subseteq> fst ` set (nominal_domain_param example_collaborators) \<and>
   nominal example_collaborators example_adapter = Inr [Num 2, Num 3] \<and>
   nominal_dict example_collaborators example_adapter = Inr [(''m'', Num 2), (''l'', Num 3)] \<and>
   array_to_dict example_adapter [Num 2, Num 3] = [(''m'', Num 2), (''l'', Num 3)]"
proof -
  have h: "set (params example_adapter) \<subseteq> fst ` set (nominal_domain_param example_collaborators)"
    by (simp add: params_def example_adapter_def example_collaborators_def)
  have n: "nominal example_collaborators example_adapter = Inr [Num 2, Num 3]"
    by (simp add: nominal_def params_def dict_get_def example_adapter_def
        example_collaborators_def)
  from nominal_round_trip [OF h] n
  have "nominal_dict example_collaborators example_adapter =
        Inr (array_to_dict example_adapter [Num 2, Num 3])" by auto
  moreover have "array_to_dict example_adapter [Num 2, Num 3] = [(''m'', Num 2), (''l'', Num 3)]"
    by (simp add: array_to_dict_def params_def example_adapter_def)
  ultimately show ?thesis using h n by simp
qed

section \<open>Properties of the reward generator\<close>

subsection \<open>The features of a rollout\<close>

lemma preprocess_features:
  assumes "length (observations ro) = Suc T" and "T \<le> length (actions ro)"
  shows "preprocess_rollout (PyStepSequence ro) =
         Inr (map (\<lambda>t. observations ro ! t @ actions ro ! t) [0..<T])"
proof -
  have "map2 (@) (butlast (observations ro)) (take T (actions ro)) =
        map (\<lambda>t. observations ro ! t @ actions ro ! t) [0..<T]"
    using assms by (auto intro!: nth_equalityI simp: nth_butlast)
  with assms show ?thesis
    by (simp add: preprocess_rollout_def narrow0_def cat1_def Let_def)
qed

text \<open>
  Claim C8. \<^verbatim>\<open>preprocess_rollout\<close> raises the type error on every argument that is not
  a trajectory. On a trajectory with \<open>T + 1\<close> observations and at least \<open>T\<close> actions it
  returns \<open>T\<close> rows, the row at time \<open>t\<close> being the observation at \<open>t\<close> followed by the
  action at \<open>t\<close>: the last observation and any action beyond the first \<open>T\<close> are left
  out, and the next states are not used.
\<close>

theorem preprocess_rollout_result:
  "((\<forall>ro. x \<noteq> PyStepSequence ro) \<longrightarrow> preprocess_rollout x = Inl TypeErr) \<and>
   (length (observations ro) = Suc T \<and> T \<le> length (actions ro) \<longrightarrow>
      preprocess_rollout (PyStepSequence ro) =
        Inr (map (\<lambda>t. observations ro ! t @ actions ro ! t) [0..<T]))"
proof (rule conjI; rule impI)
  assume "\<forall>ro. x \<noteq> PyStepSequence ro"
  then show "preprocess_rollout x = Inl TypeErr"
    by (cases x) (simp_all add: preprocess_rollout_def)
next
  assume "length (observations ro) = Suc T \<and> T \<le> length (actions ro)"
  then show "preprocess_rollout (PyStepSequence ro) =
        Inr (map (\<lambda>t. observations ro ! t @ actions ro ! t) [0..<T])"
    by (simp add: preprocess_features)
qed

theorem preprocess_rollout_result_witness:
  "preprocess_rollout (PyList [[1, 2], [3, 4]]) = Inl TypeErr \<and>
   length (observations example_rollout) = Suc 2 \<and> 2 \<le> length (actions example_rollout) \<and>
   preprocess_rollout (PyStepSequence example_rollout) = Inr [[1, 2, 7], [3, 4, 8]]"
proof -
  have a: "\<forall>ro. PyList [[1, 2], [3, 4]] \<noteq> PyStepSequence ro" by simp
  have b: "length (observations example_rollout) = Suc 2 \<and> 2 \<le> length (actions example_rollout)"
    by (simp add: example_rollout_def)
  have c: "map (\<lambda>t. observations example_rollout ! t @ actions example_rollout ! t) [0..<2]
           = [[1, 2, 7], [3, 4, 8]]"
    by (simp add: example_rollout_def upt_rec)
  from preprocess_rollout_result [of "PyList [[1, 2], [3, 4]]" example_rollout 2] a b c
  show ?thesis by simp
qed

subsection \<open>Training on nothing\<close>

lemma train_epochs_exhausted:
  "reference_gen = [] \<or> random_gen = [] \<Longrightarrow>
   train_epochs L n reference_gen random_gen loss rg = (Inr loss, rg)"
proof (induction n arbitrary: reference_gen random_gen)
  case 0
  then show ?case by simp
next
  case (Suc n)
  then show ?case
    by (cases reference_gen; cases random_gen) auto
qed

text \<open>
  Claim C6. When \<^verbatim>\<open>train\<close> is called with no epoch to run (\<open>num_epoch\<close> zero, or
  negative), or with a reference or a randomized batch without sub-rollouts, so that
  there is no pair, it raises nothing and returns \<^verbatim>\<open>None\<close>, the value \<open>loss\<close> is
  initialised with; the discriminator and the number of optimizer steps are as before,
  and a logger that is attached has received \<^verbatim>\<open>None\<close> as the loss.
\<close>

theorem train_without_pairs:
  assumes "num_epoch \<le> 0 \<or> reference_trajectory = [] \<or> randomized_trajectory = []"
  shows "train L reference_trajectory randomized_trajectory num_epoch rg =
         (Inr None,
          rg\<lparr>logger := map_option (add_value ''discriminator_loss'' None) (logger rg)\<rparr>)"
proof (cases "num_epoch \<le> 0")
  case True
  then show ?thesis by (simp add: train_def iterate_rollouts_def)
next
  case False
  with assms have "reference_trajectory = [] \<or> randomized_trajectory = []" by simp
  then show ?thesis
    by (simp add: train_def iterate_rollouts_def train_epochs_exhausted)
qed

theorem train_without_pairs_witness:
  "((0::int) \<le> 0 \<or> [example_rollout] = [] \<or> [example_rollout] = []) \<and>
   train example_learner [example_rollout] [example_rollout] 0 example_generator =
     (Inr None, \<lparr>discriminator = 0, optimizer_steps = 0,
                 logger = Some [(''discriminator_loss'', None)]\<rparr>) \<and>
   ((3::int) \<le> 0 \<or> [example_rollout, example_rollout] = [] \<or> ([]::step_sequence list) = []) \<and>
   train example_learner [example_rollout, example_rollout] [] 3 example_generator =
     (Inr None, \<lparr>discriminator = 0, optimizer_steps = 0,
                 logger = Some [(''discriminator_loss'', None)]\<rparr>)"
proof -
  have a: "(0::int) \<le> 0 \<or> [example_rollout] = [] \<or> [example_rollout] = []" by simp
  have b: "(3::int) \<le> 0 \<or> [example_rollout, example_rollout] = [] \<or> ([]::step_sequence list) = []"
    by simp
  from train_without_pairs [OF a, of example_learner example_generator]
       train_without_pairs [OF b, of example_learner example_generator]
  show ?thesis by (simp add: example_generator_def add_value_def)
qed

subsection \<open>Epochs after the first\<close>

text \<open>
  The two generators are made once, before the loop over the epochs. The first epoch
  runs at least one of them dry, so that every later epoch finds no pair: training
  for any positive number of epochs is training for one.
\<close>

lemma train_epoch_exhausts:
  "train_epoch L reference_gen random_gen loss rg = (Inr (loss', reference_gen', random_gen'), rg')
   \<Longrightarrow> reference_gen' = [] \<or> random_gen' = []"
  by (induction L reference_gen random_gen loss rg rule: train_epoch.induct)
     (auto simp: Let_def split: sum.splits)

lemma train_first_epoch_only:
  assumes "0 < num_epoch"
  shows "train L reference_trajectory randomized_trajectory num_epoch rg =
         train L reference_trajectory randomized_trajectory 1 rg"
proof -
  from assms obtain n where n: "nat num_epoch = Suc n" by (cases "nat num_epoch") auto
  have "train_epochs L (Suc n) rs xs None rg = train_epochs L (Suc 0) rs xs None rg" for rs xs
  proof (cases "train_epoch L rs xs None rg")
    case (Pair res rg')
    show ?thesis
    proof (cases res)
      case (Inl e)
      with Pair show ?thesis by simp
    next
      case (Inr t)
      obtain l rs' xs' where t: "t = (l, rs', xs')" by (cases t)
      from train_epoch_exhausts Pair Inr t have "rs' = [] \<or> xs' = []" by blast
      with Pair Inr t show ?thesis by (simp add: train_epochs_exhausted)
    qed
  qed
  with n show ?thesis by (simp add: train_def)
qed

text \<open>
  Claim C3 says that \<^verbatim>\<open>train\<close> applies one optimizer step per pair in every epoch,
  \<open>num_epoch\<close> times the number of pairs in all. On one reference and one randomized
  sub-rollout and two epochs that would be two optimizer steps; the code takes one.
\<close>

theorem train_two_epochs_one_step:
  "train example_learner [example_rollout] [example_rollout] 2 example_generator =
     (Inr (Some 4), \<lparr>discriminator = 1, optimizer_steps = 1,
                     logger = Some [(''discriminator_loss'', Some 4)]\<rparr>)"
  by (simp add: train_def iterate_rollouts_def preprocess_rollout_def narrow0_def cat1_def
      add_value_def Let_def example_learner_def example_generator_def example_rollout_def
      numeral_2_eq_2)

section \<open>An adapter without a pool\<close>

lemma no_pool_no_step:
  assumes "pool a = None"
  shows "fst (step E act i a g) \<noteq> Inr out" and "eval_states E states a \<noteq> Inr res"
proof -
  have mv: "pool a1 = None" if "step_move act j a = Inr a1" for j a1
    using that assms by (auto elim!: step_move_frame)
  have "step_sample E j a1 \<noteq> Inr p" if "pool a1 = None" for j a1 p
    using that by (auto simp: step_sample_def Let_def split: sum.splits)
  with mv show "fst (step E act i a g) \<noteq> Inr out"
    by (auto simp: step_def split: option.splits sum.splits prod.splits)
  from assms show "eval_states E states a \<noteq> Inr res"
    by (auto simp: eval_states_def Let_def split: sum.splits)
qed

text \<open>
  Claim C9 says that an adapter whose worker pool could not be built is still usable:
  \<^verbatim>\<open>step\<close> and \<^verbatim>\<open>eval_states\<close> succeed. With zero workers the pool's constructor of the
  instance raises AssertionError; the adapter's constructor returns, with no pool
  attribute, and then both \<^verbatim>\<open>step\<close> and \<^verbatim>\<open>eval_states\<close> raise AttributeError.
\<close>

theorem init_without_pool:
  "(case init example_collaborators [''m'', ''l''] 2 (Num (1 / 100)) 2 1 0 3 example_rng of
      (Inl e, g) \<Rightarrow> False
    | (Inr a, g) \<Rightarrow>
        pool a = None \<and>
        fst (step example_collaborators (nums [0, 0]) (Some 0) a g) = Inl AttributeError \<and>
        eval_states example_collaborators [nums [1 / 2, 1 / 2]] a = Inl AttributeError)"
  by (simp add: init_def reset_def np_zeros_def eval_states_def step_defs
      example_collaborators_def example_rng_def numeral_2_eq_2)

end
